theory Spec2Isabelle
  imports Complex_Main
begin

section \<open>Kerr ISCO and shadow utilities: numeric model\<close>

text \<open>
  The source computes with IEEE double precision numbers. They are modelled by the
  real numbers: every arithmetic operation is the exact one, and rounding, overflow
  and infinities are outside the model. NaN is modelled only where the source creates
  it on purpose as a sentinel (the pair returned by \<open>screen_coords\<close>, the failed
  samples of the face-on solver) or tests for it (the radius of the face-on circle).
  Every \<open>raise\<close> of the source is the left injection of a sum type. Division and
  square root are total in HOL; the theorems below show the divisors nonzero and the
  radicands non-negative on the paths they describe.
\<close>

datatype error = ValueError | RuntimeError | TypeError

datatype npfloat = Num real | NaN

subsection \<open>Shadow module: scalar functions\<close>

definition horizon_radius :: "real \<Rightarrow> error + real" where
  "horizon_radius a =
     (if \<bar>a\<bar> \<ge> 1 then Inl ValueError
      else Inr (1 + sqrt (1 - a * a)))"

definition xi_eta_spherical :: "real \<Rightarrow> real \<Rightarrow> error + (real \<times> real)" where
  "xi_eta_spherical r a =
     (if \<bar>a\<bar> < 1 / 10 ^ 12 then Inl ValueError
      else case horizon_radius a of
        Inl e \<Rightarrow> Inl e
      | Inr rh \<Rightarrow>
          if r \<le> rh then Inl ValueError
          else
            let Delta = r * r - 2 * r + a * a;
                Delta_p = 2 * r - 2
            in if \<bar>Delta_p\<bar> < 1 / 10 ^ 12 then Inl ValueError
               else
                 let A = 4 * r * Delta / Delta_p;
                     xi = ((r * r + a * a) * Delta_p - 4 * r * Delta) / (a * Delta_p);
                     B = (A * A) / Delta;
                     eta = B - (xi - a) * (xi - a)
                 in Inr (xi, eta))"

definition deg2rad :: "real \<Rightarrow> real" where
  "deg2rad x = x * (pi / 180)"

text \<open>The sine of the inclination after the guard of \<open>screen_coords\<close>.\<close>

definition floored_sin :: "real \<Rightarrow> real" where
  "floored_sin inc_deg =
     (let sin_i = sin (deg2rad inc_deg)
      in if \<bar>sin_i\<bar> < 1 / 10 ^ 15
         then (if sin_i \<noteq> 0 then sgn sin_i * (1 / 10 ^ 15) else 1 / 10 ^ 15)
         else sin_i)"

definition screen_coords :: "real \<Rightarrow> real \<Rightarrow> real \<Rightarrow> real \<Rightarrow> npfloat \<times> npfloat" where
  "screen_coords xi eta a inc_deg =
     (let i_rad = deg2rad inc_deg;
          sin_i = floored_sin inc_deg;
          cos_i = cos i_rad;
          alpha = - xi / sin_i;
          beta_sq = eta + (a * a) * cos_i * cos_i
                    - (xi * xi) * (cos_i * cos_i) / (sin_i * sin_i)
      in if beta_sq < 0 then (NaN, NaN)
         else (Num alpha, Num (sqrt beta_sq)))"


subsection \<open>Shadow module: boundary tracer\<close>

text \<open>
  \<open>numpy.linspace\<close>: \<open>num\<close> evenly spaced samples from \<open>start\<close>; with the endpoint the
  step is \<open>(stop - start) / (num - 1)\<close>, without it \<open>(stop - start) / num\<close>.
\<close>

definition linspace :: "real \<Rightarrow> real \<Rightarrow> nat \<Rightarrow> real list" where
  "linspace start stop num =
     (if num = 1 then [start]
      else map (\<lambda>k. start + real k * ((stop - start) / real (num - 1))) [0..<num])"

definition linspace_open :: "real \<Rightarrow> real \<Rightarrow> nat \<Rightarrow> real list" where
  "linspace_open start stop num =
     map (\<lambda>k. start + real k * ((stop - start) / real num)) [0..<num]"

text \<open>
  \<open>numpy.arctan2 y x\<close>, the polar angle of the point \<open>(x, y)\<close> in \<open>(-pi, pi]\<close>, and
  \<open>numpy.argsort\<close>, the indices that order the keys ascending. Both are library code;
  the order of equal keys is taken to be the order of their indices.
\<close>

definition arctan2 :: "real \<Rightarrow> real \<Rightarrow> real" where
  "arctan2 y x =
     (if 0 < x then arctan (y / x)
      else if x < 0 then (if 0 \<le> y then arctan (y / x) + pi else arctan (y / x) - pi)
      else if 0 < y then pi / 2
      else if y < 0 then - (pi / 2)
      else 0)"

definition argsort :: "real list \<Rightarrow> nat list" where
  "argsort ks = sort_key (\<lambda>i. ks ! i) [0..<length ks]"

definition sort_by_angle :: "(real \<times> real) list \<Rightarrow> (real \<times> real) list" where
  "sort_by_angle pts =
     (let angles = map (\<lambda>p. arctan2 (snd p) (fst p)) pts;
          order = argsort angles
      in map (\<lambda>i. pts ! i) order)"

text \<open>The first loop of \<open>_solve_face_on_radius\<close>: the samples of \<open>xi\<close>, NaN where
  \<open>xi_eta_spherical\<close> raises \<open>ValueError\<close>; any other exception is not caught.\<close>

fun xi_samples :: "real \<Rightarrow> real list \<Rightarrow> error + npfloat list" where
  "xi_samples a [] = Inr []"
| "xi_samples a (r # rs) =
     (case xi_eta_spherical r a of
        Inl ValueError \<Rightarrow> map_sum id ((#) NaN) (xi_samples a rs)
      | Inl e \<Rightarrow> Inl e
      | Inr (xi_val, _) \<Rightarrow> map_sum id ((#) (Num xi_val)) (xi_samples a rs))"

text \<open>The masks \<open>grid[valid]\<close> and \<open>xi_vals[valid]\<close>, kept together as pairs.\<close>

fun valid_pairs :: "real list \<Rightarrow> npfloat list \<Rightarrow> (real \<times> real) list" where
  "valid_pairs (g # gs) (Num x # xs) = (g, x) # valid_pairs gs xs"
| "valid_pairs (g # gs) (NaN # xs) = valid_pairs gs xs"
| "valid_pairs _ _ = []"

fun bisect :: "real \<Rightarrow> nat \<Rightarrow> real \<Rightarrow> real \<Rightarrow> real \<Rightarrow> real \<Rightarrow> error + real" where
  "bisect a 0 lo hi f0 f1 = Inr (0.5 * (lo + hi))"
| "bisect a (Suc k) lo hi f0 f1 =
     (let mid = 0.5 * (lo + hi)
      in case xi_eta_spherical mid a of
           Inl e \<Rightarrow> Inl e
         | Inr (f_mid, _) \<Rightarrow>
             if f_mid = 0 then Inr mid
             else if f0 * f_mid < 0 then bisect a k lo mid f0 f_mid
             else bisect a k mid hi f_mid f1)"

fun scan_sign_change :: "real \<Rightarrow> (real \<times> real) list \<Rightarrow> error + real" where
  "scan_sign_change a ((g0, f0) # (g1, f1) # rest) =
     (if f0 = 0 then Inr g0
      else if f0 * f1 < 0 then bisect a 80 g0 g1 f0 f1
      else scan_sign_change a ((g1, f1) # rest))"
| "scan_sign_change a _ = Inl RuntimeError"

definition solve_face_on_radius :: "real \<Rightarrow> error + real" where
  "solve_face_on_radius a =
     (case horizon_radius a of
        Inl e \<Rightarrow> Inl e
      | Inr rh \<Rightarrow>
          let r_min = rh + 1 / 10 ^ 6;
              r_max = 20;
              grid = linspace r_min r_max 2000
          in (case xi_samples a grid of
                Inl e \<Rightarrow> Inl e
              | Inr xi_vals \<Rightarrow> scan_sign_change a (valid_pairs grid xi_vals)))"

definition circle_points :: "real \<Rightarrow> nat \<Rightarrow> real list \<times> real list" where
  "circle_points radius n =
     (let theta = linspace_open 0 (2 * pi) n
      in (map (\<lambda>t. radius * cos t) theta, map (\<lambda>t. radius * sin t) theta))"

text \<open>\<open>radius\<close> of the face-on circle is NaN, and then refused, when the argument of
  the square root is negative.\<close>

definition face_on_boundary :: "real \<Rightarrow> nat \<Rightarrow> error + (real list \<times> real list)" where
  "face_on_boundary a n =
     (if \<bar>a\<bar> < 1 / 10 ^ 12 then Inr (circle_points (sqrt 27) n)
      else case solve_face_on_radius a of
        Inl e \<Rightarrow> Inl e
      | Inr r_face \<Rightarrow>
          (case xi_eta_spherical r_face a of
             Inl e \<Rightarrow> Inl e
           | Inr (xi_val, eta_val) \<Rightarrow>
               if eta_val + a * a < 0 then Inl RuntimeError
               else Inr (circle_points (sqrt (eta_val + a * a)) n)))"

text \<open>The sampling loop of \<open>shadow_boundary\<close>: radii that fail or project to NaN are
  skipped, every other one adds the point and its mirror image.\<close>

fun boundary_points :: "real \<Rightarrow> real \<Rightarrow> real list \<Rightarrow> error + (real \<times> real) list" where
  "boundary_points a inc_deg [] = Inr []"
| "boundary_points a inc_deg (r # rs) =
     (case xi_eta_spherical r a of
        Inl ValueError \<Rightarrow> boundary_points a inc_deg rs
      | Inl e \<Rightarrow> Inl e
      | Inr (xi, eta_val) \<Rightarrow>
          (case screen_coords xi eta_val a inc_deg of
             (Num alpha, Num beta) \<Rightarrow>
               map_sum id (\<lambda>ps. (alpha, beta) # (alpha, - beta) # ps)
                 (boundary_points a inc_deg rs)
           | _ \<Rightarrow> boundary_points a inc_deg rs))"

definition FACEON_TOL :: real where
  "FACEON_TOL = 1 / 10 ^ 6"

definition shadow_boundary :: "real \<Rightarrow> real \<Rightarrow> int \<Rightarrow> error + (real list \<times> real list)" where
  "shadow_boundary a inc_deg n =
     (if n < 100 then Inl ValueError
      else if \<bar>a\<bar> < 1 / 10 ^ 12 then Inr (circle_points (sqrt 27) (nat n))
      else if \<bar>sin (deg2rad inc_deg)\<bar> < FACEON_TOL then face_on_boundary a (nat n)
      else case horizon_radius a of
        Inl e \<Rightarrow> Inl e
      | Inr rh \<Rightarrow>
          let r_min = rh + 1 / 10 ^ 6;
              r_max = 20;
              r_grid = linspace r_min r_max (nat (n div 2))
          in (case boundary_points a inc_deg r_grid of
                Inl e \<Rightarrow> Inl e
              | Inr points \<Rightarrow>
                  if points = [] then Inr ([], [])
                  else let pts = sort_by_angle points
                       in Inr (map fst pts, map snd pts)))"

subsection \<open>Test helper \<open>circle_stats\<close>\<close>

text \<open>Mean and standard deviation (\<open>numpy.mean\<close>, \<open>numpy.std\<close>) of the distances of
  the points from their centroid, as the test suite measures a circle.\<close>

definition mean :: "real list \<Rightarrow> real" where
  "mean xs = sum_list xs / real (length xs)"

definition np_std :: "real list \<Rightarrow> real" where
  "np_std xs = sqrt (mean (map (\<lambda>x. \<bar>x - mean xs\<bar>\<^sup>2) xs))"

definition circle_stats :: "real list \<Rightarrow> real list \<Rightarrow> real \<times> real" where
  "circle_stats alpha beta =
     (let x0 = mean alpha;
          y0 = mean beta;
          radii = map2 (\<lambda>x y. sqrt ((x - x0)\<^sup>2 + (y - y0)\<^sup>2)) alpha beta
      in (mean radii, np_std radii))"


subsection \<open>Arrays\<close>

text \<open>
  A \<open>numpy.ndarray\<close> of floats: its shape and its elements in row-major order. The
  functions of the ISCO module first convert their argument with \<open>numpy.asarray\<close>; the
  model takes the converted argument. A Python float, a zero-dimensional array and a
  \<open>numpy.float64\<close> are all the array of shape \<open>[]\<close> with one element.
\<close>

datatype ndarray = NDArray (shape: "nat list") (data: "real list")

definition scalar :: "real \<Rightarrow> ndarray" where
  "scalar x = NDArray [] [x]"

definition well_shaped :: "ndarray \<Rightarrow> bool" where
  "well_shaped a \<longleftrightarrow> length (data a) = prod_list (shape a)"

definition nd_map :: "(real \<Rightarrow> real) \<Rightarrow> ndarray \<Rightarrow> ndarray" where
  "nd_map f a = NDArray (shape a) (map f (data a))"

definition np_any :: "(real \<Rightarrow> bool) \<Rightarrow> ndarray \<Rightarrow> bool" where
  "np_any p a = list_ex p (data a)"

text \<open>
  Broadcasting of two shapes, aligned at the last axis: two extents are compatible when
  they are equal or one of them is 1. The shapes are compared in reverse.
\<close>

fun broadcast_rev :: "nat list \<Rightarrow> nat list \<Rightarrow> nat list option" where
  "broadcast_rev [] ys = Some ys"
| "broadcast_rev xs [] = Some xs"
| "broadcast_rev (x # xs) (y # ys) =
     (if x = y \<or> y = 1 then map_option ((#) x) (broadcast_rev xs ys)
      else if x = 1 then map_option ((#) y) (broadcast_rev xs ys)
      else None)"

definition broadcast_shapes :: "nat list \<Rightarrow> nat list \<Rightarrow> nat list option" where
  "broadcast_shapes s t = map_option rev (broadcast_rev (rev s) (rev t))"

text \<open>The elements of an array of shape \<open>s\<close> repeated to the shape \<open>t\<close> of equal
  rank: along an axis of extent 1 the single block is read for every index.\<close>

fun broadcast_data :: "nat list \<Rightarrow> nat list \<Rightarrow> real list \<Rightarrow> real list" where
  "broadcast_data (d # s) (e # t) xs =
     (let c = prod_list s
      in concat (map (\<lambda>k. broadcast_data s t (take c (drop ((if d = 1 then 0 else k) * c) xs)))
                  [0..<e]))"
| "broadcast_data _ _ xs = xs"

definition broadcast_to :: "nat list \<Rightarrow> ndarray \<Rightarrow> real list" where
  "broadcast_to t a =
     broadcast_data (replicate (length t - length (shape a)) 1 @ shape a) t (data a)"

text \<open>A binary ufunc; operands that cannot be broadcast together raise \<open>ValueError\<close>.\<close>

definition nd_binop :: "(real \<Rightarrow> real \<Rightarrow> real) \<Rightarrow> ndarray \<Rightarrow> ndarray \<Rightarrow> error + ndarray" where
  "nd_binop f a b =
     (case broadcast_shapes (shape a) (shape b) of
        None \<Rightarrow> Inl ValueError
      | Some t \<Rightarrow> Inr (NDArray t (map2 f (broadcast_to t a) (broadcast_to t b))))"

text \<open>
  Array expressions are evaluated on results, so that an exception raised in an
  operand is the value of the whole expression, the left operand first.
\<close>

definition lift1 :: "(real \<Rightarrow> real) \<Rightarrow> error + ndarray \<Rightarrow> error + ndarray" where
  "lift1 f x = (case x of Inl e \<Rightarrow> Inl e | Inr a \<Rightarrow> Inr (nd_map f a))"

definition lift2 ::
  "(real \<Rightarrow> real \<Rightarrow> real) \<Rightarrow> error + ndarray \<Rightarrow> error + ndarray \<Rightarrow> error + ndarray" where
  "lift2 f x y =
     (case x of
        Inl e \<Rightarrow> Inl e
      | Inr a \<Rightarrow> (case y of Inl e \<Rightarrow> Inl e | Inr b \<Rightarrow> nd_binop f a b))"

definition np_abs :: "error + ndarray \<Rightarrow> error + ndarray" where
  "np_abs = lift1 abs"

definition np_cbrt :: "error + ndarray \<Rightarrow> error + ndarray" where
  "np_cbrt = lift1 (root 3)"

definition np_sqrt :: "error + ndarray \<Rightarrow> error + ndarray" where
  "np_sqrt = lift1 sqrt"

definition np_neg :: "error + ndarray \<Rightarrow> error + ndarray" where
  "np_neg = lift1 uminus"

definition np_power :: "error + ndarray \<Rightarrow> real \<Rightarrow> error + ndarray" where
  "np_power x p = lift1 (\<lambda>v. v powr p) x"

text \<open>A Python float combined with an array: \<open>c + x\<close>, \<open>c - x\<close>, \<open>c * x\<close>.\<close>

definition s_add :: "real \<Rightarrow> error + ndarray \<Rightarrow> error + ndarray" where
  "s_add c = lift1 (\<lambda>v. c + v)"

definition s_sub :: "real \<Rightarrow> error + ndarray \<Rightarrow> error + ndarray" where
  "s_sub c = lift1 (\<lambda>v. c - v)"

definition s_mul :: "real \<Rightarrow> error + ndarray \<Rightarrow> error + ndarray" where
  "s_mul c = lift1 (\<lambda>v. c * v)"

definition arr_add :: "error + ndarray \<Rightarrow> error + ndarray \<Rightarrow> error + ndarray" where
  "arr_add = lift2 (+)"

definition arr_sub :: "error + ndarray \<Rightarrow> error + ndarray \<Rightarrow> error + ndarray" where
  "arr_sub = lift2 (-)"

definition arr_mul :: "error + ndarray \<Rightarrow> error + ndarray \<Rightarrow> error + ndarray" where
  "arr_mul = lift2 (*)"

definition arr_div :: "error + ndarray \<Rightarrow> error + ndarray \<Rightarrow> error + ndarray" where
  "arr_div = lift2 (/)"

text \<open>\<open>float(x)\<close> of an array: the element of an array that has exactly one, and
  \<open>TypeError\<close> otherwise.\<close>

definition py_float :: "ndarray \<Rightarrow> error + real" where
  "py_float a = (case data a of [x] \<Rightarrow> Inr x | _ \<Rightarrow> Inl TypeError)"

subsection \<open>ISCO module\<close>

definition validate_spin :: "ndarray \<Rightarrow> error + unit" where
  "validate_spin a = (if np_any (\<lambda>x. \<bar>x\<bar> \<ge> 1) a then Inl ValueError else Inr ())"

definition z1 :: "ndarray \<Rightarrow> error + real" where
  "z1 a =
     (let a_arr = a
      in case validate_spin a_arr of
        Inl e \<Rightarrow> Inl e
      | Inr _ \<Rightarrow>
          let abs_a = np_abs (Inr a_arr);
              term = np_cbrt (s_sub 1 (arr_mul abs_a abs_a));
              z1_val = s_add 1 (arr_mul term
                         (arr_add (np_cbrt (s_add 1 abs_a)) (np_cbrt (s_sub 1 abs_a))))
          in (case z1_val of Inl e \<Rightarrow> Inl e | Inr v \<Rightarrow> py_float v))"

definition z2 :: "ndarray \<Rightarrow> error + real" where
  "z2 a =
     (case z1 a of
        Inl e \<Rightarrow> Inl e
      | Inr z1_val \<Rightarrow>
          (case py_float a of
             Inl e \<Rightarrow> Inl e
           | Inr a_val \<Rightarrow> Inr (sqrt (3 * a_val * a_val + z1_val * z1_val))))"

text \<open>\<open>numpy.isscalar\<close> is false for every array, so \<open>r_isco\<close>, \<open>E_equatorial\<close> and
  \<open>eta\<close> return the array they computed.\<close>

definition r_isco :: "ndarray \<Rightarrow> bool \<Rightarrow> error + ndarray" where
  "r_isco a prograde =
     (let a_arr = a
      in case validate_spin a_arr of
        Inl e \<Rightarrow> Inl e
      | Inr _ \<Rightarrow>
          let abs_a = np_abs (Inr a_arr);
              term = np_cbrt (s_sub 1 (arr_mul abs_a abs_a));
              z1_val = s_add 1 (arr_mul term
                         (arr_add (np_cbrt (s_add 1 abs_a)) (np_cbrt (s_sub 1 abs_a))));
              z2_val = np_sqrt (arr_add (arr_mul (s_mul 3 abs_a) abs_a) (arr_mul z1_val z1_val));
              root = np_sqrt (arr_mul (s_sub 3 z1_val)
                       (arr_add (s_add 3 z1_val) (s_mul 2 z2_val)));
              sigma = (if prograde then - 1 else 1);
              radius = arr_add (s_add 3 z2_val) (s_mul sigma root)
          in radius)"

definition E_equatorial :: "ndarray \<Rightarrow> ndarray \<Rightarrow> bool \<Rightarrow> error + ndarray" where
  "E_equatorial r a prograde =
     (let r_arr = r; a_arr = a
      in if np_any (\<lambda>x. x \<le> 0) r_arr then Inl ValueError
         else case validate_spin a_arr of
           Inl e \<Rightarrow> Inl e
         | Inr _ \<Rightarrow>
             let abs_a = np_abs (Inr a_arr);
                 a_term = (if prograde then abs_a else np_neg abs_a);
                 sqrt_r = np_sqrt (Inr r_arr);
                 r32 = arr_mul (Inr r_arr) sqrt_r;
                 numerator = arr_add (arr_sub r32 (s_mul 2 sqrt_r)) a_term;
                 inner = arr_add (arr_sub r32 (s_mul 3 sqrt_r)) (s_mul 2 a_term)
             in (case numerator of
                   Inl e \<Rightarrow> Inl e
                 | Inr _ \<Rightarrow>
                     (case inner of
                        Inl e \<Rightarrow> Inl e
                      | Inr inner_v \<Rightarrow>
                          if np_any (\<lambda>x. x \<le> 0) inner_v then Inl ValueError
                          else
                            let denominator = arr_mul (np_power (Inr r_arr) 0.75) (np_sqrt inner);
                                energy = arr_div numerator denominator
                            in energy)))"

definition eta :: "ndarray \<Rightarrow> bool \<Rightarrow> error + ndarray" where
  "eta a prograde =
     (case r_isco a prograde of
        Inl e \<Rightarrow> Inl e
      | Inr radii \<Rightarrow>
          (case E_equatorial radii a prograde of
             Inl e \<Rightarrow> Inl e
           | Inr energies \<Rightarrow>
               let efficiency = s_sub 1 (Inr energies)
               in efficiency))"

subsection \<open>Entrywise formulas\<close>

text \<open>The value that the array expressions of the ISCO module compute at one entry;
  the theorems below relate the array functions to them.\<close>

definition z1_of :: "real \<Rightarrow> real" where
  "z1_of x = 1 + root 3 (1 - \<bar>x\<bar> * \<bar>x\<bar>) * (root 3 (1 + \<bar>x\<bar>) + root 3 (1 - \<bar>x\<bar>))"

definition z2_of :: "real \<Rightarrow> real" where
  "z2_of x = sqrt (3 * \<bar>x\<bar> * \<bar>x\<bar> + z1_of x * z1_of x)"

definition r_isco_of :: "bool \<Rightarrow> real \<Rightarrow> real" where
  "r_isco_of prograde x =
     3 + z2_of x
       + (if prograde then - 1 else 1) * sqrt ((3 - z1_of x) * (3 + z1_of x + 2 * z2_of x))"

definition a_term_of :: "bool \<Rightarrow> real \<Rightarrow> real" where
  "a_term_of prograde y = (if prograde then \<bar>y\<bar> else - \<bar>y\<bar>)"

definition inner_of :: "bool \<Rightarrow> real \<Rightarrow> real \<Rightarrow> real" where
  "inner_of prograde x y = x * sqrt x - 3 * sqrt x + 2 * a_term_of prograde y"

definition E_of :: "bool \<Rightarrow> real \<Rightarrow> real \<Rightarrow> real" where
  "E_of prograde x y =
     (x * sqrt x - 2 * sqrt x + a_term_of prograde y)
       / (x powr 0.75 * sqrt (inner_of prograde x y))"

definition nd_zip :: "(real \<Rightarrow> real \<Rightarrow> real) \<Rightarrow> ndarray \<Rightarrow> ndarray \<Rightarrow> ndarray" where
  "nd_zip f r a = NDArray (shape r) (map2 f (data r) (data a))"


section \<open>Properties\<close>

lemma horizon_radius_ok:
  "\<bar>a\<bar> < 1 \<Longrightarrow> horizon_radius a = Inr (1 + sqrt (1 - a * a))"
  by (simp add: horizon_radius_def)

lemma spin_square_less_1:
  fixes a :: real
  assumes "\<bar>a\<bar> < 1"
  shows "a * a < 1"
proof -
  have "\<bar>a\<bar> * \<bar>a\<bar> < 1 * 1"
    using assms by (intro mult_strict_mono') simp_all
  then show ?thesis by (simp add: abs_mult_self_eq)
qed

lemma horizon_radius_ge_1:
  assumes "horizon_radius a = Inr rh"
  shows "1 \<le> rh"
proof -
  have "\<bar>a\<bar> < 1" and rh: "rh = 1 + sqrt (1 - a * a)"
    using assms by (auto simp: horizon_radius_def split: if_splits)
  then have "0 \<le> 1 - a * a" using spin_square_less_1 [of a] by simp
  then show ?thesis using rh by simp
qed

lemma Delta_pos_above_horizon:
  assumes "\<bar>a\<bar> < 1" and "1 + sqrt (1 - a * a) < r"
  shows "0 < r * r - 2 * r + a * a"
proof -
  have nn: "0 \<le> 1 - a * a"
    using spin_square_less_1 [OF assms(1)] by simp
  have "sqrt (1 - a * a) < r - 1" using assms(2) by simp
  moreover have "0 \<le> sqrt (1 - a * a)" using nn by simp
  ultimately have "(sqrt (1 - a * a))\<^sup>2 < (r - 1)\<^sup>2"
    by (intro power_strict_mono) simp_all
  then have "1 - a * a < (r - 1)\<^sup>2" using nn by simp
  then show ?thesis by (simp add: power2_eq_square algebra_simps)
qed


subsection \<open>Constants of motion of a spherical photon orbit\<close>





subsection \<open>Projection to the observer's screen\<close>

text \<open>
  Claim C8. \<open>screen_coords xi eta a inc_deg\<close> returns the pair (NaN, NaN), and no
  error, exactly when \<open>beta\<^sup>2 = eta + a\<^sup>2 cos\<^sup>2 i - xi\<^sup>2 cos\<^sup>2 i / sin\<^sup>2 i\<close> is negative;
  otherwise it returns \<open>(- xi / sin i, sqrt (beta\<^sup>2))\<close>. Here \<open>sin i\<close> stands for the
  sine with the signed floor: \<open>1e-15\<close> carrying the sign of the sine (positive at zero)
  whenever \<open>|sin i| < 1e-15\<close>.
\<close>

theorem screen_coords_spec:
  fixes xi eta_val a inc_deg :: real
  defines "i \<equiv> inc_deg * (pi / 180)"
  defines "s \<equiv> (if \<bar>sin i\<bar> < 1 / 10 ^ 15
                    then (if sin i < 0 then - (1 / 10 ^ 15) else 1 / 10 ^ 15)
                    else sin i)"
  defines "beta_sq \<equiv> eta_val + a\<^sup>2 * (cos i)\<^sup>2 - xi\<^sup>2 * (cos i)\<^sup>2 / s\<^sup>2"
  shows "(screen_coords xi eta_val a inc_deg = (NaN, NaN) \<longleftrightarrow> beta_sq < 0)
       \<and> (0 \<le> beta_sq \<longrightarrow>
            screen_coords xi eta_val a inc_deg = (Num (- xi / s), Num (sqrt beta_sq)))
       \<and> s \<noteq> 0"
proof -
  have s: "floored_sin inc_deg = s"
    by (auto simp: floored_sin_def deg2rad_def s_def i_def Let_def sgn_real_def)
  have nz: "s \<noteq> 0" by (auto simp: s_def)
  show ?thesis
    using nz by (auto simp: screen_coords_def s deg2rad_def beta_sq_def i_def
        Let_def power2_eq_square)
qed

theorem screen_coords_spec_witness:
  "screen_coords 1 4 0 90 = (Num (- 1), Num 2)
   \<and> screen_coords 0 (- 1) 0 90 = (NaN, NaN)
   \<and> screen_coords 0 4 0 0 = (Num 0, Num 2)"
proof -
  have s2: "sqrt 4 = 2" by (rule real_sqrt_unique) simp_all
  show ?thesis
    using screen_coords_spec [of 1 4 0 90] screen_coords_spec [of 0 "- 1" 0 90]
      screen_coords_spec [of 0 4 0 0] s2
    by simp
qed

subsection \<open>The Schwarzschild circle\<close>

lemma sum_cis_roots:
  assumes "1 < n"
  shows "(\<Sum>k<n. cis (2 * pi * real k / real n)) = 0"
proof -
  have "(\<Sum>k<n. cis (2 * pi * real k / real n)) = \<Sum>{z::complex. z ^ n = 1}"
    using assms by (intro sum.reindex_bij_betw bij_betw_roots_unity) simp
  then show ?thesis using sum_roots_unity [OF assms] by simp
qed

lemma sum_cos_roots:
  assumes "1 < n"
  shows "(\<Sum>k<n. cos (real k * (2 * pi / real n))) = 0"
proof -
  have "(\<Sum>k<n. cos (real k * (2 * pi / real n))) = Re (\<Sum>k<n. cis (2 * pi * real k / real n))"
    by (simp add: algebra_simps)
  then show ?thesis by (simp add: sum_cis_roots [OF assms])
qed

lemma sum_sin_roots:
  assumes "1 < n"
  shows "(\<Sum>k<n. sin (real k * (2 * pi / real n))) = 0"
proof -
  have "(\<Sum>k<n. sin (real k * (2 * pi / real n))) = Im (\<Sum>k<n. cis (2 * pi * real k / real n))"
    by (simp add: algebra_simps)
  then show ?thesis by (simp add: sum_cis_roots [OF assms])
qed

lemma sum_list_upt: "sum_list (map f [0..<n]) = (\<Sum>k<n. f k)"
  by (simp add: interv_sum_list_conv_sum_set_nat atLeast0LessThan)

lemma circle_points_fst:
  "fst (circle_points R n) = map (\<lambda>k. R * cos (real k * (2 * pi / real n))) [0..<n]"
  by (simp add: circle_points_def linspace_open_def Let_def comp_def)

lemma circle_points_snd:
  "snd (circle_points R n) = map (\<lambda>k. R * sin (real k * (2 * pi / real n))) [0..<n]"
  by (simp add: circle_points_def linspace_open_def Let_def comp_def)

lemma mean_circle_fst:
  assumes "1 < n"
  shows "mean (fst (circle_points R n)) = 0"
proof -
  have "sum_list (fst (circle_points R n)) = R * (\<Sum>k<n. cos (real k * (2 * pi / real n)))"
    by (simp add: circle_points_fst sum_list_upt sum_distrib_left)
  then have "sum_list (fst (circle_points R n)) = 0"
    by (simp only: sum_cos_roots [OF assms] mult_zero_right)
  then show ?thesis by (simp add: mean_def)
qed

lemma mean_circle_snd:
  assumes "1 < n"
  shows "mean (snd (circle_points R n)) = 0"
proof -
  have "sum_list (snd (circle_points R n)) = R * (\<Sum>k<n. sin (real k * (2 * pi / real n)))"
    by (simp add: circle_points_snd sum_list_upt sum_distrib_left)
  then have "sum_list (snd (circle_points R n)) = 0"
    by (simp only: sum_sin_roots [OF assms] mult_zero_right)
  then show ?thesis by (simp add: mean_def)
qed

lemma circle_radius:
  fixes R t :: real
  assumes "0 \<le> R"
  shows "sqrt ((R * cos t)\<^sup>2 + (R * sin t)\<^sup>2) = R"
proof -
  have "(R * cos t)\<^sup>2 + (R * sin t)\<^sup>2 = R\<^sup>2 * (cos t)\<^sup>2 + R\<^sup>2 * (sin t)\<^sup>2"
    by (simp add: power_mult_distrib)
  also have "\<dots> = R\<^sup>2 * ((cos t)\<^sup>2 + (sin t)\<^sup>2)"
    by (simp only: distrib_left)
  also have "\<dots> = R\<^sup>2" by simp
  finally show ?thesis using assms by simp
qed

lemma mean_replicate:
  assumes "0 < n"
  shows "mean (replicate n c) = c"
  using assms by (simp add: mean_def sum_list_replicate)

lemma circle_stats_circle_points:
  assumes "1 < n" and "0 \<le> R"
  shows "circle_stats (fst (circle_points R n)) (snd (circle_points R n)) = (R, 0)"
proof -
  have radii: "map2 (\<lambda>x y. sqrt (x\<^sup>2 + y\<^sup>2))
          (fst (circle_points R n)) (snd (circle_points R n)) = replicate n R"
    by (simp add: circle_points_fst circle_points_snd zip_map_map zip_same_conv_map
        comp_def circle_radius [OF assms(2)] map_replicate_const del: times_divide_eq_right)
  have n: "0 < n" using assms(1) by simp
  have "map (\<lambda>x. \<bar>x - R\<bar>\<^sup>2) (replicate n R) = replicate n 0"
    by simp
  then have std: "np_std (replicate n R) = 0"
    by (simp only: np_std_def mean_replicate [OF n] real_sqrt_zero)
  have "circle_stats (fst (circle_points R n)) (snd (circle_points R n))
          = (mean (replicate n R), np_std (replicate n R))"
    unfolding circle_stats_def Let_def
      mean_circle_fst [OF assms(1)] mean_circle_snd [OF assms(1)] diff_zero radii ..
  then show ?thesis by (simp only: std mean_replicate [OF n])
qed

lemma length_circle_points:
  "length (fst (circle_points R n)) = n" "length (snd (circle_points R n)) = n"
  by (simp_all add: circle_points_fst circle_points_snd)

lemma circle_points_on_circle:
  assumes "k < n"
  shows "(fst (circle_points R n) ! k)\<^sup>2 + (snd (circle_points R n) ! k)\<^sup>2 = R\<^sup>2"
proof -
  let ?t = "real k * (2 * pi / real n)"
  have "(fst (circle_points R n) ! k)\<^sup>2 + (snd (circle_points R n) ! k)\<^sup>2
          = (R * cos ?t)\<^sup>2 + (R * sin ?t)\<^sup>2"
    using assms by (simp only: circle_points_fst circle_points_snd nth_map_upt
        length_upt diff_zero nth_map nth_upt add_0)
  also have "\<dots> = R\<^sup>2 * (cos ?t)\<^sup>2 + R\<^sup>2 * (sin ?t)\<^sup>2"
    by (simp only: power_mult_distrib)
  also have "\<dots> = R\<^sup>2 * ((cos ?t)\<^sup>2 + (sin ?t)\<^sup>2)"
    by (simp only: distrib_left)
  also have "\<dots> = R\<^sup>2" by simp
  finally show ?thesis .
qed

text \<open>
  Claim C2. When \<open>|a| < 1e-12\<close> and \<open>n \<ge> 100\<close>, for any inclination,
  \<open>shadow_boundary a inc_deg n\<close> returns \<open>n\<close> points that all lie on the circle of radius
  \<open>sqrt 27\<close> about the origin; the mean distance from the centroid differs from
  \<open>sqrt 27\<close> by less than \<open>1e-3\<close> and the standard deviation of the distances is below
  \<open>1e-3\<close> (they are \<open>sqrt 27\<close> and \<open>0\<close>).
\<close>

theorem shadow_boundary_zero_spin_circle:
  assumes "\<bar>a\<bar> < 1 / 10 ^ 12" and "100 \<le> n"
  shows "\<exists>alpha beta. shadow_boundary a inc_deg n = Inr (alpha, beta)
           \<and> length alpha = nat n \<and> length beta = nat n
           \<and> (\<forall>k < nat n. (alpha ! k)\<^sup>2 + (beta ! k)\<^sup>2 = 27)
           \<and> \<bar>fst (circle_stats alpha beta) - sqrt 27\<bar> < 1 / 10 ^ 3
           \<and> snd (circle_stats alpha beta) < 1 / 10 ^ 3"
proof -
  let ?c = "circle_points (sqrt 27) (nat n)"
  have n: "1 < nat n" using assms(2) by simp
  have sb: "shadow_boundary a inc_deg n = Inr (fst ?c, snd ?c)"
    using assms by (simp add: shadow_boundary_def)
  have on: "\<forall>k < nat n. (fst ?c ! k)\<^sup>2 + (snd ?c ! k)\<^sup>2 = 27"
    using circle_points_on_circle [of _ "nat n" "sqrt 27"] by simp
  have st: "circle_stats (fst ?c) (snd ?c) = (sqrt 27, 0)"
    using n by (intro circle_stats_circle_points) simp_all
  show ?thesis
  proof (intro exI conjI)
    show "shadow_boundary a inc_deg n = Inr (fst ?c, snd ?c)" by (rule sb)
    show "\<forall>k < nat n. (fst ?c ! k)\<^sup>2 + (snd ?c ! k)\<^sup>2 = 27" by (rule on)
  qed (simp_all add: st length_circle_points)
qed

theorem shadow_boundary_zero_spin_circle_witness:
  "\<exists>alpha beta. shadow_boundary 0 45 1024 = Inr (alpha, beta)
           \<and> length alpha = 1024 \<and> length beta = 1024
           \<and> (alpha ! 7)\<^sup>2 + (beta ! 7)\<^sup>2 = 27
           \<and> \<bar>fst (circle_stats alpha beta) - sqrt 27\<bar> < 1 / 10 ^ 3
           \<and> snd (circle_stats alpha beta) < 1 / 10 ^ 3"
proof -
  have h1: "\<bar>0 :: real\<bar> < 1 / 10 ^ 12" by simp
  have h2: "(100 :: int) \<le> 1024" by simp
  have "(7 :: nat) < nat 1024" by simp
  then show ?thesis
    using shadow_boundary_zero_spin_circle [OF h1 h2, of 45] by fastforce
qed

subsection \<open>Sorting by polar angle\<close>









subsection \<open>The sampling loop\<close>

lemma xi_eta_spherical_error:
  assumes "xi_eta_spherical r a = Inl e"
  shows "e = ValueError"
  using assms
  by (auto simp: xi_eta_spherical_def horizon_radius_def Let_def split: if_splits)

lemma boundary_points_all_skipped:
  assumes "\<forall>r \<in> set rs.
             (case xi_eta_spherical r a of
                Inl e \<Rightarrow> True
              | Inr (xi, eta_val) \<Rightarrow> screen_coords xi eta_val a inc_deg = (NaN, NaN))"
  shows "boundary_points a inc_deg rs = Inr []"
  using assms
proof (induction rs)
  case Nil
  then show ?case by simp
next
  case (Cons r rs)
  then have ih: "boundary_points a inc_deg rs = Inr []" by simp
  show ?case
  proof (cases "xi_eta_spherical r a")
    case (Inl e)
    then have "e = ValueError" by (rule xi_eta_spherical_error)
    then show ?thesis using Inl ih by simp
  next
    case (Inr p)
    obtain xi eta_val where p: "p = (xi, eta_val)" by (cases p)
    have "screen_coords xi eta_val a inc_deg = (NaN, NaN)"
      using Cons.prems Inr p by simp
    then show ?thesis using Inr p ih by simp
  qed
qed

text \<open>
  Claim C10. For a spin with \<open>1e-12 \<le> |a| < 1\<close>, an inclination with
  \<open>|sin i| \<ge> 1e-6\<close> and \<open>n \<ge> 100\<close>: if every one of the \<open>n div 2\<close> sampled radii
  either makes \<open>xi_eta_spherical\<close> fail or projects to the NaN pair, then
  \<open>shadow_boundary a inc_deg n\<close> returns a pair of empty arrays and raises no error.
\<close>

theorem shadow_boundary_empty_when_all_skipped:
  assumes "1 / 10 ^ 12 \<le> \<bar>a\<bar>" and "\<bar>a\<bar> < 1"
    and "1 / 10 ^ 6 \<le> \<bar>sin (inc_deg * (pi / 180))\<bar>"
    and "100 \<le> n"
    and "\<forall>r \<in> set (linspace (1 + sqrt (1 - a * a) + 1 / 10 ^ 6) 20 (nat (n div 2))).
             (case xi_eta_spherical r a of
                Inl e \<Rightarrow> True
              | Inr (xi, eta_val) \<Rightarrow> screen_coords xi eta_val a inc_deg = (NaN, NaN))"
  shows "shadow_boundary a inc_deg n = Inr ([], [])"
proof -
  have "boundary_points a inc_deg
          (linspace (1 + sqrt (1 - a * a) + 1 / 10 ^ 6) 20 (nat (n div 2))) = Inr []"
    using assms(5) by (rule boundary_points_all_skipped)
  then show ?thesis
    using assms(1-4)
    by (simp add: shadow_boundary_def horizon_radius_ok FACEON_TOL_def deg2rad_def Let_def)
qed

subsection \<open>Closed forms at an edge-on inclination\<close>

text \<open>At \<open>90\<close> degrees the projection keeps a radius exactly when
  \<open>r (r - 3)\<^sup>2 \<le> 4 a\<^sup>2\<close>; this decides the sampled radii of the concrete boundaries
  below.\<close>

lemma screen_coords_edge_on:
  "screen_coords xi eta_val a 90 =
     (if eta_val < 0 then (NaN, NaN) else (Num (- xi), Num (sqrt eta_val)))"
  by (simp add: screen_coords_def floored_sin_def deg2rad_def Let_def)

lemma sqrt_ratio_2499: "sqrt (1 - 100 / 2501 * (100 / 2501)) = 2499 / 2501"
  by (rule real_sqrt_unique) (simp_all add: power2_eq_square)



lemma xi_minus_a:
  fixes r a :: real
  assumes "a \<noteq> 0" and "r \<noteq> 1"
  shows "((r * r + a * a) * (2 * r - 2) - 4 * r * (r * r - 2 * r + a * a)) / (a * (2 * r - 2)) - a
           = - (r * (r * r - 3 * r + 2 * a * a)) / (a * (r - 1))"
  using assms by (simp add: field_simps)

lemma B_closed_form:
  fixes r D q :: real
  assumes "D \<noteq> 0" and "q \<noteq> 0"
  shows "(4 * r * D / (2 * q)) * (4 * r * D / (2 * q)) / D = 4 * r\<^sup>2 * D / q\<^sup>2"
  using assms by (simp add: field_simps power2_eq_square)

lemma eta_closed_form:
  fixes r a :: real
  assumes "a \<noteq> 0" and "r \<noteq> 1" and "r * r - 2 * r + a * a \<noteq> 0"
  shows "(4 * r * (r * r - 2 * r + a * a) / (2 * r - 2)) * (4 * r * (r * r - 2 * r + a * a) / (2 * r - 2))
             / (r * r - 2 * r + a * a)
           - (((r * r + a * a) * (2 * r - 2) - 4 * r * (r * r - 2 * r + a * a)) / (a * (2 * r - 2)) - a)
             * (((r * r + a * a) * (2 * r - 2) - 4 * r * (r * r - 2 * r + a * a)) / (a * (2 * r - 2)) - a)
           = r ^ 3 * (4 * a\<^sup>2 - r * (r - 3)\<^sup>2) / (a\<^sup>2 * (r - 1)\<^sup>2)"
proof -
  let ?D = "r * r - 2 * r + a * a"
  have r1: "r - 1 \<noteq> 0" using assms(2) by simp
  have two: "2 * r - 2 = 2 * (r - 1)" by simp
  have "(4 * r * ?D / (2 * r - 2)) * (4 * r * ?D / (2 * r - 2)) / ?D
          = 4 * r\<^sup>2 * ?D / (r - 1)\<^sup>2"
    unfolding two by (rule B_closed_form [OF assms(3) r1])
  also have "\<dots> = 4 * a\<^sup>2 * r\<^sup>2 * ?D / (a\<^sup>2 * (r - 1)\<^sup>2)"
    using assms(1) by simp
  finally have B: "(4 * r * ?D / (2 * r - 2)) * (4 * r * ?D / (2 * r - 2)) / ?D
          = 4 * a\<^sup>2 * r\<^sup>2 * ?D / (a\<^sup>2 * (r - 1)\<^sup>2)" .
  have "(- (r * (r * r - 3 * r + 2 * a * a)) / (a * (r - 1)))
          * (- (r * (r * r - 3 * r + 2 * a * a)) / (a * (r - 1)))
        = r\<^sup>2 * (r * r - 3 * r + 2 * a * a)\<^sup>2 / (a\<^sup>2 * (r - 1)\<^sup>2)"
    by (simp add: power2_eq_square mult_ac)
  then have X: "(((r * r + a * a) * (2 * r - 2) - 4 * r * ?D) / (a * (2 * r - 2)) - a)
             * (((r * r + a * a) * (2 * r - 2) - 4 * r * ?D) / (a * (2 * r - 2)) - a)
        = r\<^sup>2 * (r * r - 3 * r + 2 * a * a)\<^sup>2 / (a\<^sup>2 * (r - 1)\<^sup>2)"
    by (simp only: xi_minus_a [OF assms(1,2)])
  have "4 * a\<^sup>2 * r\<^sup>2 * ?D - r\<^sup>2 * (r * r - 3 * r + 2 * a * a)\<^sup>2
          = r ^ 3 * (4 * a\<^sup>2 - r * (r - 3)\<^sup>2)"
    by (simp add: power2_eq_square power3_eq_cube algebra_simps)
  then show ?thesis
    by (simp only: B X diff_divide_distrib [symmetric])
qed

lemma xi_eta_spherical_closed:
  fixes r a :: real
  assumes "1 / 10 ^ 12 \<le> \<bar>a\<bar>" and "\<bar>a\<bar> < 1"
    and "1 + sqrt (1 - a * a) < r" and "1 / 10 ^ 12 \<le> 2 * r - 2"
  shows "xi_eta_spherical r a =
           Inr (a - r * (r * r - 3 * r + 2 * a * a) / (a * (r - 1)),
                r ^ 3 * (4 * a\<^sup>2 - r * (r - 3)\<^sup>2) / (a\<^sup>2 * (r - 1)\<^sup>2))"
proof -
  have a0: "a \<noteq> 0" using assms(1) by auto
  have r1: "r \<noteq> 1" using assms(4) by auto
  have D: "r * r - 2 * r + a * a \<noteq> 0"
    using Delta_pos_above_horizon [OF assms(2,3)] by simp
  have xi: "((r * r + a * a) * (2 * r - 2) - 4 * r * (r * r - 2 * r + a * a)) / (a * (2 * r - 2))
              = a - r * (r * r - 3 * r + 2 * a * a) / (a * (r - 1))"
    using xi_minus_a [OF a0 r1] by simp
  have "xi_eta_spherical r a =
          Inr (((r * r + a * a) * (2 * r - 2) - 4 * r * (r * r - 2 * r + a * a)) / (a * (2 * r - 2)),
            (4 * r * (r * r - 2 * r + a * a) / (2 * r - 2)) * (4 * r * (r * r - 2 * r + a * a) / (2 * r - 2))
             / (r * r - 2 * r + a * a)
           - (((r * r + a * a) * (2 * r - 2) - 4 * r * (r * r - 2 * r + a * a)) / (a * (2 * r - 2)) - a)
             * (((r * r + a * a) * (2 * r - 2) - 4 * r * (r * r - 2 * r + a * a)) / (a * (2 * r - 2)) - a))"
    using assms by (simp add: xi_eta_spherical_def horizon_radius_ok Let_def)
  then have "xi_eta_spherical r a =
          Inr (((r * r + a * a) * (2 * r - 2) - 4 * r * (r * r - 2 * r + a * a)) / (a * (2 * r - 2)),
            r ^ 3 * (4 * a\<^sup>2 - r * (r - 3)\<^sup>2) / (a\<^sup>2 * (r - 1)\<^sup>2))"
    by (simp only: eta_closed_form [OF a0 r1 D])
  then show ?thesis
    by (simp only: xi)
qed

lemma skipped_edge_on:
  fixes r a :: real
  assumes "1 / 10 ^ 12 \<le> \<bar>a\<bar>" and "\<bar>a\<bar> < 1"
    and "1 + sqrt (1 - a * a) < r" and "1 / 10 ^ 12 \<le> 2 * r - 2"
    and "4 * a\<^sup>2 < r * (r - 3)\<^sup>2"
  shows "(case xi_eta_spherical r a of
            Inl e \<Rightarrow> True
          | Inr (xi, eta_val) \<Rightarrow> screen_coords xi eta_val a 90 = (NaN, NaN))"
proof -
  have a0: "a \<noteq> 0" using assms(1) by auto
  have r0: "0 < r" using assms(4) by simp
  have "0 < r ^ 3" using r0 by simp
  moreover have "4 * a\<^sup>2 - r * (r - 3)\<^sup>2 < 0" using assms(5) by simp
  ultimately have "r ^ 3 * (4 * a\<^sup>2 - r * (r - 3)\<^sup>2) < 0"
    by (rule mult_pos_neg)
  moreover have "0 < a\<^sup>2 * (r - 1)\<^sup>2"
    using a0 assms(4) by simp
  ultimately have "r ^ 3 * (4 * a\<^sup>2 - r * (r - 3)\<^sup>2) / (a\<^sup>2 * (r - 1)\<^sup>2) < 0"
    by (rule divide_neg_pos)
  then show ?thesis
    by (simp add: xi_eta_spherical_closed [OF assms(1-4)] screen_coords_edge_on)
qed

lemma band_skipped:
  fixes r :: real
  assumes "(19 / 10 \<le> r \<and> r \<le> 274 / 100) \<or> 31 / 10 \<le> r"
  shows "4 * (100 / 2501)\<^sup>2 < r * (r - 3)\<^sup>2"
  using assms
proof
  assume h: "19 / 10 \<le> r \<and> r \<le> 274 / 100"
  then have "26 / 100 \<le> 3 - r" by simp
  then have "(26 / 100)\<^sup>2 \<le> (3 - r)\<^sup>2" by (intro power_mono) simp_all
  then have sq: "(26 / 100)\<^sup>2 \<le> (r - 3)\<^sup>2" by (simp add: power2_commute)
  have "19 / 10 * (26 / 100)\<^sup>2 \<le> r * (r - 3)\<^sup>2"
    using h sq by (intro mult_mono) simp_all
  then show ?thesis by (simp add: power2_eq_square)
next
  assume h: "31 / 10 \<le> r"
  then have "1 / 10 \<le> r - 3" by simp
  then have sq: "(1 / 10)\<^sup>2 \<le> (r - 3)\<^sup>2" by (intro power_mono) simp_all
  have "31 / 10 * (1 / 10)\<^sup>2 \<le> r * (r - 3)\<^sup>2"
    using h sq by (intro mult_mono) simp_all
  then show ?thesis by (simp add: power2_eq_square)
qed

lemma sparse_grid_all_skipped:
  "\<forall>r \<in> set (linspace (1 + 2499 / 2501 + 1 / 10 ^ 6) 20 50).
     5000 / 2501 < r \<and> 1 / 10 ^ 12 \<le> 2 * r - 2 \<and> 4 * (100 / 2501)\<^sup>2 < r * (r - 3)\<^sup>2"
proof
  fix r
  assume "r \<in> set (linspace (1 + 2499 / 2501 + 1 / 10 ^ 6) 20 50)"
  then obtain k :: nat where k: "k < 50"
    and r: "r = 1 + 2499 / 2501 + 1 / 10 ^ 6 + real k * ((20 - (1 + 2499 / 2501 + 1 / 10 ^ 6)) / 49)"
    by (auto simp: linspace_def)
  have lo: "5000 / 2501 < r" unfolding r by simp
  have band: "(19 / 10 \<le> r \<and> r \<le> 274 / 100) \<or> 31 / 10 \<le> r"
  proof (cases "k \<le> 2")
    case True
    then have "real k \<le> 2" by simp
    then show ?thesis unfolding r by simp
  next
    case False
    then have "3 \<le> real k" by simp
    then show ?thesis unfolding r by simp
  qed
  show "5000 / 2501 < r \<and> 1 / 10 ^ 12 \<le> 2 * r - 2 \<and> 4 * (100 / 2501)\<^sup>2 < r * (r - 3)\<^sup>2"
    using lo band_skipped [OF band] by simp
qed

text \<open>With spin \<open>100/2501\<close> seen edge-on and \<open>n = 100\<close>, the fifty sampled radii all
  miss the narrow band of photon orbits around \<open>r = 3\<close>.\<close>

theorem shadow_boundary_empty_when_all_skipped_witness:
  "shadow_boundary (100 / 2501) 90 100 = Inr ([], [])"
proof -
  have h1: "1 / 10 ^ 12 \<le> \<bar>100 / 2501 :: real\<bar>" by simp
  have h2: "\<bar>100 / 2501 :: real\<bar> < 1" by simp
  have h3: "1 / 10 ^ 6 \<le> \<bar>sin (90 * (pi / 180))\<bar>" by simp
  have h4: "(100 :: int) \<le> 100" by simp
  have h5: "\<forall>r \<in> set (linspace (1 + sqrt (1 - 100 / 2501 * (100 / 2501)) + 1 / 10 ^ 6) 20
                (nat (100 div 2))).
             (case xi_eta_spherical r (100 / 2501) of
                Inl e \<Rightarrow> True
              | Inr (xi, eta_val) \<Rightarrow> screen_coords xi eta_val (100 / 2501) 90 = (NaN, NaN))"
  proof
    fix r
    assume "r \<in> set (linspace (1 + sqrt (1 - 100 / 2501 * (100 / 2501)) + 1 / 10 ^ 6) 20
                (nat (100 div 2)))"
    then have "r \<in> set (linspace (1 + 2499 / 2501 + 1 / 10 ^ 6) 20 50)"
      by (simp only: sqrt_ratio_2499) simp
    then have "5000 / 2501 < r \<and> 1 / 10 ^ 12 \<le> 2 * r - 2
        \<and> 4 * (100 / 2501)\<^sup>2 < r * (r - 3)\<^sup>2"
      using sparse_grid_all_skipped by blast
    then have g: "1 + sqrt (1 - 100 / 2501 * (100 / 2501)) < r"
      and d: "1 / 10 ^ 12 \<le> 2 * r - 2"
      and e: "4 * (100 / 2501)\<^sup>2 < r * (r - 3)\<^sup>2"
      by (simp_all only: sqrt_ratio_2499) simp_all
    show "case xi_eta_spherical r (100 / 2501) of
                Inl e \<Rightarrow> True
              | Inr (xi, eta_val) \<Rightarrow> screen_coords xi eta_val (100 / 2501) 90 = (NaN, NaN)"
      by (rule skipped_edge_on [OF h1 h2 g d e])
  qed
  show ?thesis
    by (rule shadow_boundary_empty_when_all_skipped [OF h1 h2 h3 h4 h5])
qed

subsection \<open>Re-sorting a boundary\<close>










subsection \<open>Broadcasting of equal shapes\<close>

lemma broadcast_rev_same: "broadcast_rev s s = Some s"
  by (induction s) simp_all

lemma broadcast_shapes_same: "broadcast_shapes s s = Some s"
  by (simp add: broadcast_shapes_def broadcast_rev_same)

lemma concat_chunks:
  assumes "length xs = d * c"
  shows "concat (map (\<lambda>k. take c (drop (k * c) xs)) [0..<d]) = xs"
  using assms
proof (induction d arbitrary: xs rule: nat.induct)
  case zero
  then show ?case by simp
next
  case (Suc d)
  let ?ys = "take (d * c) xs"
  have len: "length ?ys = d * c" using Suc.prems by simp
  have eq: "map (\<lambda>k. take c (drop (k * c) xs)) [0..<d] = map (\<lambda>k. take c (drop (k * c) ?ys)) [0..<d]"
  proof (rule map_cong [OF refl])
    fix k assume "k \<in> set [0..<d]"
    then have "k < d" by simp
    then have "k * c + c \<le> d * c"
      by (metis Suc_leI mult_Suc mult_le_mono1 add.commute)
    then show "take c (drop (k * c) xs) = take c (drop (k * c) ?ys)"
      by (simp add: drop_take)
  qed
  have "concat (map (\<lambda>k. take c (drop (k * c) xs)) [0..<d]) = ?ys"
    unfolding eq by (rule Suc.IH [OF len])
  moreover have "take c (drop (d * c) xs) = drop (d * c) xs"
    using Suc.prems by simp
  ultimately show ?case by simp
qed

lemma broadcast_data_same:
  assumes "length xs = prod_list s"
  shows "broadcast_data s s xs = xs"
  using assms
proof (induction s arbitrary: xs)
  case Nil
  then show ?case by simp
next
  case (Cons d s)
  let ?c = "prod_list s"
  have eq: "map (\<lambda>k. broadcast_data s s (take ?c (drop ((if d = 1 then 0 else k) * ?c) xs))) [0..<d]
          = map (\<lambda>k. take ?c (drop (k * ?c) xs)) [0..<d]"
  proof (rule map_cong [OF refl])
    fix k assume "k \<in> set [0..<d]"
    then have k: "k < d" by simp
    then have idx: "(if d = 1 then 0 else k) = k" by auto
    have "k * ?c + ?c \<le> d * ?c"
      using k by (metis Suc_leI mult_Suc mult_le_mono1 add.commute)
    then have "length (take ?c (drop (k * ?c) xs)) = ?c"
      using Cons.prems by simp
    then show "broadcast_data s s (take ?c (drop ((if d = 1 then 0 else k) * ?c) xs))
            = take ?c (drop (k * ?c) xs)"
      unfolding idx by (rule Cons.IH)
  qed
  have "broadcast_data (d # s) (d # s) xs
      = concat (map (\<lambda>k. broadcast_data s s (take ?c (drop ((if d = 1 then 0 else k) * ?c) xs))) [0..<d])"
    by (simp only: broadcast_data.simps Let_def)
  also have "\<dots> = concat (map (\<lambda>k. take ?c (drop (k * ?c) xs)) [0..<d])"
    by (simp only: eq)
  also have "\<dots> = xs"
    using Cons.prems by (intro concat_chunks) simp
  finally show ?case .
qed

lemma broadcast_to_same:
  assumes "well_shaped a"
  shows "broadcast_to (shape a) a = data a"
  using assms by (simp add: broadcast_to_def well_shaped_def broadcast_data_same)

lemma nd_binop_same_shape:
  assumes "well_shaped a" and "well_shaped b" and "shape a = shape b"
  shows "nd_binop f a b = Inr (NDArray (shape a) (map2 f (data a) (data b)))"
  using assms broadcast_to_same [of a] broadcast_to_same [of b]
  by (simp add: nd_binop_def broadcast_shapes_same)

lemma well_shaped_nd_map: "well_shaped a \<Longrightarrow> well_shaped (nd_map f a)"
  by (simp add: well_shaped_def nd_map_def)

lemma lift1_nd_map:
  "lift1 f (Inr (nd_map g a)) = Inr (nd_map (\<lambda>x. f (g x)) a)"
  by (simp add: lift1_def nd_map_def)

lemma lift2_nd_map:
  assumes "well_shaped a"
  shows "lift2 f (Inr (nd_map g a)) (Inr (nd_map h a)) = Inr (nd_map (\<lambda>x. f (g x) (h x)) a)"
proof -
  have "nd_binop f (nd_map g a) (nd_map h a)
      = Inr (NDArray (shape (nd_map g a)) (map2 f (data (nd_map g a)) (data (nd_map h a))))"
    using assms by (intro nd_binop_same_shape well_shaped_nd_map) (simp_all add: nd_map_def)
  also have "\<dots> = Inr (nd_map (\<lambda>x. f (g x) (h x)) a)"
    by (simp add: nd_map_def zip_map_map zip_same_conv_map comp_def)
  finally show ?thesis by (simp add: lift2_def)
qed

lemma nd_map_ident: "nd_map (\<lambda>x. x) a = a"
  by (simp add: nd_map_def)

subsection \<open>The ISCO radius\<close>

lemma lift1_Inr: "lift1 f (Inr a) = Inr (nd_map f a)"
  by (simp add: lift1_def)

lemma nd_map_nd_map: "nd_map f (nd_map g a) = nd_map (\<lambda>x. f (g x)) a"
  by (simp add: nd_map_def)

lemma validate_spin_ok:
  "\<forall>x \<in> set (data a). \<bar>x\<bar> < 1 \<Longrightarrow> validate_spin a = Inr ()"
  by (auto simp: validate_spin_def np_any_def list_ex_iff)

lemma validate_spin_fail:
  "\<exists>x \<in> set (data a). 1 \<le> \<bar>x\<bar> \<Longrightarrow> validate_spin a = Inl ValueError"
  by (auto simp: validate_spin_def np_any_def list_ex_iff)

lemma z1_val_eval:
  assumes "well_shaped a"
  shows "s_add 1 (arr_mul (np_cbrt (s_sub 1 (arr_mul (np_abs (Inr a)) (np_abs (Inr a)))))
           (arr_add (np_cbrt (s_add 1 (np_abs (Inr a)))) (np_cbrt (s_sub 1 (np_abs (Inr a))))))
         = Inr (nd_map z1_of a)"
  by (simp add: np_abs_def np_cbrt_def s_add_def s_sub_def arr_mul_def arr_add_def
      lift1_Inr nd_map_nd_map lift2_nd_map [OF assms] z1_of_def [abs_def])

lemma r_isco_eval:
  assumes "well_shaped a" and "\<forall>x \<in> set (data a). \<bar>x\<bar> < 1"
  shows "r_isco a prograde = Inr (nd_map (r_isco_of prograde) a)"
proof -
  have "r_isco a prograde =
      (let z1_val = Inr (nd_map z1_of a);
           z2_val = np_sqrt (arr_add (arr_mul (s_mul 3 (np_abs (Inr a))) (np_abs (Inr a)))
                      (arr_mul z1_val z1_val));
           root = np_sqrt (arr_mul (s_sub 3 z1_val)
                       (arr_add (s_add 3 z1_val) (s_mul 2 z2_val)))
       in arr_add (s_add 3 z2_val) (s_mul (if prograde then - 1 else 1) root))"
    by (simp only: r_isco_def Let_def validate_spin_ok [OF assms(2)] sum.case
        z1_val_eval [OF assms(1)])
  also have "\<dots> = Inr (nd_map (r_isco_of prograde) a)"
    by (simp add: np_abs_def np_sqrt_def s_add_def s_sub_def s_mul_def arr_mul_def arr_add_def
      lift1_Inr nd_map_nd_map lift2_nd_map [OF assms(1)] r_isco_of_def [abs_def]
      z2_of_def [abs_def] Let_def)
  finally show ?thesis .
qed

lemma r_isco_fail:
  assumes "\<exists>x \<in> set (data a). 1 \<le> \<bar>x\<bar>"
  shows "r_isco a prograde = Inl ValueError"
  by (simp add: r_isco_def validate_spin_fail [OF assms])

lemma well_shaped_scalar: "well_shaped (scalar x)"
  by (simp add: well_shaped_def scalar_def)

lemma nd_map_scalar: "nd_map f (scalar x) = scalar (f x)"
  by (simp add: nd_map_def scalar_def)

lemma z1_of_zero: "z1_of 0 = 3"
  by (simp add: z1_of_def)

lemma z2_of_zero: "z2_of 0 = 3"
proof -
  have "sqrt 9 = 3" by (rule real_sqrt_unique) simp_all
  then show ?thesis by (simp add: z2_of_def z1_of_zero)
qed

text \<open>
  Claim C3. At zero spin the ISCO radius is exactly 6, the Schwarzschild value, for
  prograde and retrograde orbits alike.
\<close>

theorem r_isco_schwarzschild:
  "r_isco (scalar 0) True = Inr (scalar 6) \<and> r_isco (scalar 0) False = Inr (scalar 6)"
proof -
  have "r_isco (scalar 0) prograde = Inr (scalar (r_isco_of prograde 0))" for prograde
    using r_isco_eval [OF well_shaped_scalar, of 0 prograde]
    by (simp add: nd_map_scalar) (simp add: scalar_def)
  moreover have "r_isco_of prograde 0 = 6" for prograde
    by (simp add: r_isco_of_def z1_of_zero z2_of_zero)
  ultimately show ?thesis by simp
qed

subsection \<open>The orbital energy\<close>

lemma lift1_nd_zip:
  "lift1 f (Inr (nd_zip F r a)) = Inr (nd_zip (\<lambda>x y. f (F x y)) r a)"
  by (simp add: lift1_def nd_zip_def nd_map_def comp_def case_prod_unfold)

lemma lift2_nd_zip:
  assumes "well_shaped r" and "well_shaped a" and "shape r = shape a"
  shows "lift2 f (Inr (nd_zip F r a)) (Inr (nd_zip G r a))
           = Inr (nd_zip (\<lambda>x y. f (F x y) (G x y)) r a)"
proof -
  have len: "length (data r) = length (data a)"
    using assms by (simp add: well_shaped_def)
  have ws: "well_shaped (nd_zip H r a)" for H
    using assms(1) len by (simp add: well_shaped_def nd_zip_def)
  have "nd_binop f (nd_zip F r a) (nd_zip G r a)
      = Inr (NDArray (shape (nd_zip F r a))
               (map2 f (data (nd_zip F r a)) (data (nd_zip G r a))))"
    by (intro nd_binop_same_shape ws) (simp add: nd_zip_def)
  also have "\<dots> = Inr (nd_zip (\<lambda>x y. f (F x y) (G x y)) r a)"
    by (simp add: nd_zip_def zip_map_map zip_same_conv_map comp_def case_prod_unfold)
  finally show ?thesis by (simp add: lift2_def)
qed

lemma nd_zip_left:
  assumes "length (data r) = length (data a)"
  shows "r = nd_zip (\<lambda>x y. x) r a"
proof -
  have "map2 (\<lambda>x y. x) (data r) (data a) = map fst (zip (data r) (data a))"
    by (simp add: case_prod_unfold)
  also have "\<dots> = data r" using assms by (intro map_fst_zip) simp
  finally show ?thesis by (cases r) (simp add: nd_zip_def)
qed

lemma nd_zip_right:
  assumes "length (data r) = length (data a)" and "shape r = shape a"
  shows "a = nd_zip (\<lambda>x y. y) r a"
proof -
  have "map2 (\<lambda>x y. y) (data r) (data a) = map snd (zip (data r) (data a))"
    by (simp add: case_prod_unfold)
  also have "\<dots> = data a" using assms(1) by (intro map_snd_zip) simp
  finally show ?thesis using assms(2) by (cases a) (simp add: nd_zip_def)
qed

lemma E_equatorial_eval:
  assumes "well_shaped r" and "well_shaped a" and "shape r = shape a"
    and "\<forall>x \<in> set (data r). 0 < x" and "\<forall>y \<in> set (data a). \<bar>y\<bar> < 1"
  shows "E_equatorial r a prograde =
           (if \<exists>p \<in> set (zip (data r) (data a)). inner_of prograde (fst p) (snd p) \<le> 0
            then Inl ValueError
            else Inr (nd_zip (E_of prograde) r a))"
proof -
  have len: "length (data r) = length (data a)"
    using assms(1-3) by (simp add: well_shaped_def)
  have R: "Inr r = (Inr (nd_zip (\<lambda>x y. x) r a) :: error + ndarray)"
    using nd_zip_left [OF len] by simp
  have A: "Inr a = (Inr (nd_zip (\<lambda>x y. y) r a) :: error + ndarray)"
    using nd_zip_right [OF len assms(3)] by simp
  have pos: "\<not> np_any (\<lambda>x. x \<le> 0) r"
    using assms(4) by (auto simp: np_any_def list_ex_iff)
  note l2 = lift2_nd_zip [OF assms(1-3)]
  have any: "np_any P (nd_zip F r a) \<longleftrightarrow> (\<exists>p \<in> set (zip (data r) (data a)). P (F (fst p) (snd p)))"
    for P F
    by (simp add: np_any_def nd_zip_def list_ex_iff case_prod_unfold)
  show ?thesis
    unfolding E_equatorial_def Let_def
    by (simp only: pos if_False validate_spin_ok [OF assms(5)] sum.case R A)
      (simp add: np_abs_def np_sqrt_def np_neg_def np_power_def s_mul_def
        arr_add_def arr_sub_def arr_mul_def arr_div_def lift1_nd_zip l2 any
        inner_of_def a_term_of_def E_of_def [abs_def])
qed

lemma powr_one_half:
  fixes r :: real
  assumes "0 < r"
  shows "r powr 0.5 = sqrt r"
  using assms powr_half_sqrt [of r] by simp

lemma powr_three_halves:
  fixes r :: real
  assumes "0 < r"
  shows "r powr 1.5 = r * sqrt r"
proof -
  have "r powr 1.5 = r powr (1 + 1 / 2)" by simp
  also have "\<dots> = r powr 1 * r powr (1 / 2)" by (rule powr_add)
  also have "\<dots> = r * sqrt r" using assms by (simp add: powr_half_sqrt)
  finally show ?thesis .
qed

lemma E_equatorial_radius_fail:
  assumes "\<exists>x \<in> set (data r). x \<le> 0"
  shows "E_equatorial r a prograde = Inl ValueError"
  using assms by (auto simp: E_equatorial_def np_any_def list_ex_iff)

lemma E_equatorial_spin_fail:
  assumes "\<exists>x \<in> set (data a). 1 \<le> \<bar>x\<bar>"
  shows "E_equatorial r a prograde = Inl ValueError"
  by (simp add: E_equatorial_def validate_spin_fail [OF assms])

lemma E_equatorial_scalar:
  "E_equatorial (scalar r) (scalar a) prograde =
     (if r \<le> 0 \<or> 1 \<le> \<bar>a\<bar> \<or> inner_of prograde r a \<le> 0 then Inl ValueError
      else Inr (scalar (E_of prograde r a)))"
proof (cases "r \<le> 0 \<or> 1 \<le> \<bar>a\<bar>")
  case True
  then show ?thesis
    using E_equatorial_radius_fail [of "scalar r" "scalar a" prograde]
      E_equatorial_spin_fail [of "scalar a" "scalar r" prograde]
    by (auto simp: scalar_def)
next
  case False
  then have "E_equatorial (scalar r) (scalar a) prograde =
           (if \<exists>p \<in> set (zip (data (scalar r)) (data (scalar a))).
                 inner_of prograde (fst p) (snd p) \<le> 0
            then Inl ValueError
            else Inr (nd_zip (E_of prograde) (scalar r) (scalar a)))"
    by (intro E_equatorial_eval well_shaped_scalar) (simp_all add: scalar_def)
  then show ?thesis using False by (simp add: scalar_def nd_zip_def)
qed

text \<open>
  Claim C7, as amended. \<open>E_equatorial r a prograde\<close> on scalars fails, with
  \<open>ValueError\<close>, exactly when \<open>r \<le> 0\<close>, \<open>|a| \<ge> 1\<close> or the inner bracket
  \<open>r^1.5 - 3 r^0.5 + 2 sigma_a\<close> is not positive, where \<open>sigma_a\<close> is \<open>+|a|\<close> for a
  prograde and \<open>-|a|\<close> for a retrograde orbit; otherwise it returns
  \<open>(r^1.5 - 2 r^0.5 + sigma_a) / (r^0.75 sqrt (r^1.5 - 3 r^0.5 + 2 sigma_a))\<close>, whose
  divisor is not zero.
\<close>

theorem E_equatorial_spec:
  fixes r a :: real and prograde :: bool
  defines "sigma_a \<equiv> (if prograde then \<bar>a\<bar> else - \<bar>a\<bar>)"
  defines "inner \<equiv> r powr 1.5 - 3 * r powr 0.5 + 2 * sigma_a"
  shows "((\<exists>e. E_equatorial (scalar r) (scalar a) prograde = Inl e)
            \<longleftrightarrow> (r \<le> 0 \<or> 1 \<le> \<bar>a\<bar> \<or> inner \<le> 0))
       \<and> (r \<le> 0 \<or> 1 \<le> \<bar>a\<bar> \<or> inner \<le> 0
            \<longrightarrow> E_equatorial (scalar r) (scalar a) prograde = Inl ValueError)
       \<and> (\<not> (r \<le> 0 \<or> 1 \<le> \<bar>a\<bar> \<or> inner \<le> 0)
            \<longrightarrow> E_equatorial (scalar r) (scalar a) prograde =
                  Inr (scalar ((r powr 1.5 - 2 * r powr 0.5 + sigma_a)
                                / (r powr 0.75 * sqrt inner)))
                \<and> r powr 0.75 * sqrt inner \<noteq> 0)"
proof (cases "0 < r")
  case False
  then show ?thesis by (simp add: E_equatorial_scalar)
next
  case True
  have i: "inner_of prograde r a = inner"
    by (simp only: inner_of_def inner_def sigma_a_def a_term_of_def
        powr_one_half [OF True] powr_three_halves [OF True])
  have e: "E_of prograde r a = (r powr 1.5 - 2 * r powr 0.5 + sigma_a) / (r powr 0.75 * sqrt inner)"
    by (simp only: E_of_def i) (simp only: sigma_a_def a_term_of_def
        powr_one_half [OF True] powr_three_halves [OF True])
  show ?thesis
    by (simp add: E_equatorial_scalar i e)
qed

lemma sqrt_4: "sqrt 4 = 2"
  by (rule real_sqrt_unique) simp_all

lemma sqrt_9_4: "sqrt (9 / 4) = 3 / 2"
  by (rule real_sqrt_unique) (simp_all add: power2_eq_square)

theorem E_equatorial_spec_witness:
  "E_equatorial (scalar 4) (scalar (- 1 / 2)) True
      = Inr (scalar ((4 powr 1.5 - 2 * 4 powr 0.5 + 1 / 2)
                      / (4 powr 0.75 * sqrt (4 powr 1.5 - 3 * 4 powr 0.5 + 2 * (1 / 2)))))
   \<and> E_equatorial (scalar 1) (scalar 0) True = Inl ValueError
   \<and> E_equatorial (scalar 0) (scalar 0) True = Inl ValueError"
proof -
  have p4: "(4 :: real) powr (3 / 2) = 8" "(4 :: real) powr (1 / 2) = 2"
    using powr_three_halves [of 4] powr_one_half [of 4] by (simp_all add: sqrt_4)
  show ?thesis
    using E_equatorial_spec [of 4 "- 1 / 2" True] E_equatorial_spec [of 1 0 True]
      E_equatorial_spec [of 0 0 True]
    by (simp add: p4)
qed

text \<open>With \<open>sigma_a = +a\<close> the claim fails at a negative spin: for \<open>r = 9/4\<close>,
  \<open>a = -3/4\<close>, prograde, the bracket of the claim is negative, and the function returns
  a value, computed with \<open>sigma_a = 3/4\<close>.\<close>

theorem E_equatorial_signed_spin_counterexample:
  "(9 / 4) powr 1.5 - 3 * (9 / 4) powr 0.5 + 2 * (- 3 / 4) \<le> (0 :: real)
   \<and> E_equatorial (scalar (9 / 4)) (scalar (- 3 / 4)) True
         = Inr (scalar ((9 / 8) / ((9 / 4) powr 0.75 * sqrt (3 / 8))))"
proof -
  have p: "(9 / 4 :: real) powr (3 / 2) = 27 / 8" "(9 / 4 :: real) powr (1 / 2) = 3 / 2"
    using powr_three_halves [of "9 / 4"] powr_one_half [of "9 / 4"]
    by (simp_all add: sqrt_9_4)
  have "inner_of True (9 / 4) (- 3 / 4) = 3 / 8"
    by (simp add: inner_of_def a_term_of_def sqrt_9_4)
  moreover have "E_of True (9 / 4) (- 3 / 4) = (9 / 8) / ((9 / 4) powr 0.75 * sqrt (3 / 8))"
    by (simp add: E_of_def inner_of_def a_term_of_def sqrt_9_4)
  ultimately show ?thesis
    by (simp add: E_equatorial_scalar p)
qed

subsection \<open>Validation of the spin\<close>


lemma z1_fail:
  assumes "\<exists>x \<in> set (data a). 1 \<le> \<bar>x\<bar>"
  shows "z1 a = Inl ValueError"
  by (simp add: z1_def validate_spin_fail [OF assms])

lemma z2_fail:
  assumes "\<exists>x \<in> set (data a). 1 \<le> \<bar>x\<bar>"
  shows "z2 a = Inl ValueError"
  by (simp add: z2_def z1_fail [OF assms])

lemma eta_fail:
  assumes "\<exists>x \<in> set (data a). 1 \<le> \<bar>x\<bar>"
  shows "eta a prograde = Inl ValueError"
  by (simp add: eta_def r_isco_fail [OF assms])

lemma horizon_radius_fail: "1 \<le> \<bar>s\<bar> \<Longrightarrow> horizon_radius s = Inl ValueError"
  by (simp add: horizon_radius_def)

lemma xi_eta_spherical_fail: "1 \<le> \<bar>s\<bar> \<Longrightarrow> xi_eta_spherical r s = Inl ValueError"
  by (simp add: xi_eta_spherical_def horizon_radius_fail)

lemma shadow_boundary_fail:
  assumes "1 \<le> \<bar>s\<bar>"
  shows "shadow_boundary s inc_deg n = Inl ValueError"
proof -
  have "\<not> \<bar>s\<bar> < 1 / 10 ^ 12" using assms by simp
  then show ?thesis
    by (simp add: shadow_boundary_def face_on_boundary_def solve_face_on_radius_def
        horizon_radius_fail [OF assms])
qed

text \<open>
  Claim C5, as amended. The functions \<open>z1\<close>, \<open>z2\<close>, \<open>r_isco\<close>, \<open>E_equatorial\<close>,
  \<open>eta\<close>, \<open>horizon_radius\<close>, \<open>xi_eta_spherical\<close> and \<open>shadow_boundary\<close> fail with
  \<open>ValueError\<close>, returning no result, for every input whose spin (or one entry of
  whose spin array) has \<open>|a| \<ge> 1\<close>. \<open>screen_coords\<close> does not inspect the spin.
\<close>

theorem spin_validated:
  assumes "1 \<le> \<bar>s\<bar>" and "s \<in> set (data a)"
  shows "z1 a = Inl ValueError \<and> z2 a = Inl ValueError
       \<and> r_isco a prograde = Inl ValueError
       \<and> E_equatorial r a prograde = Inl ValueError
       \<and> eta a prograde = Inl ValueError
       \<and> horizon_radius s = Inl ValueError
       \<and> xi_eta_spherical r0 s = Inl ValueError
       \<and> shadow_boundary s inc_deg n = Inl ValueError"
proof -
  have ex: "\<exists>x \<in> set (data a). 1 \<le> \<bar>x\<bar>" using assms by blast
  show ?thesis
    by (simp only: z1_fail [OF ex] z2_fail [OF ex] r_isco_fail [OF ex] eta_fail [OF ex]
        E_equatorial_spin_fail [OF ex] horizon_radius_fail [OF assms(1)]
        xi_eta_spherical_fail [OF assms(1)] shadow_boundary_fail [OF assms(1)] simp_thms)
qed

theorem spin_validated_witness:
  "z1 (scalar 2) = Inl ValueError \<and> z2 (scalar 2) = Inl ValueError
       \<and> r_isco (scalar 2) True = Inl ValueError
       \<and> E_equatorial (scalar 6) (scalar 2) True = Inl ValueError
       \<and> eta (scalar 2) True = Inl ValueError
       \<and> horizon_radius 2 = Inl ValueError
       \<and> xi_eta_spherical 3 2 = Inl ValueError
       \<and> shadow_boundary 2 45 1024 = Inl ValueError"
proof -
  have h1: "1 \<le> \<bar>2 :: real\<bar>" by simp
  have h2: "2 \<in> set (data (scalar 2))" by (simp add: scalar_def)
  show ?thesis
    by (rule spin_validated [OF h1 h2])
qed

text \<open>\<open>screen_coords\<close> projects a point for the spin 2.\<close>

theorem screen_coords_unvalidated_counterexample:
  "1 \<le> \<bar>2 :: real\<bar> \<and> screen_coords 0 0 2 90 = (Num 0, Num 0)"
  by (simp add: screen_coords_edge_on)


subsection \<open>Monotonicity of the ISCO radius\<close>


















subsection \<open>Stability at the ISCO and the efficiency\<close>








subsection \<open>Broadcasting over arrays\<close>










end
